theory Spec2Isabelle
  imports Main "HOL-Library.Word" "HOL-Library.Sublist" "HOL-Library.Char_ord"
    "HOL-Library.List_Lexorder"
begin

unbundle bit_operations_syntax

section \<open>Python strings and bytes\<close>

text \<open>
  A Python \<open>bytes\<close> value is a list of 8-bit characters. A Python \<open>str\<close> is modelled by
  its UTF-8 encoding (a name the operating system gives that is not valid UTF-8 is kept as
  its bytes), so \<open>sorted\<close> on strings is the lexicographic order of \<open>char list\<close>, which
  for valid UTF-8 is the order of the code points.
\<close>

type_synonym bytes = "char list"

definition digit_char :: "nat \<Rightarrow> char" where
  "digit_char d = ''0123456789'' ! (d mod 10)"

text \<open>\<open>str(n)\<close> for a non-negative integer: its decimal digits.\<close>

fun str_nat :: "nat \<Rightarrow> string" where
  "str_nat n = (if n < 10 then [digit_char n] else str_nat (n div 10) @ [digit_char (n mod 10)])"

declare str_nat.simps [simp del]

definition lower_char :: "char \<Rightarrow> char" where
  "lower_char c =
     (if CHR ''A'' \<le> c \<and> c \<le> CHR ''Z'' then char_of (of_char c + (32 :: nat)) else c)"

text \<open>
  \<open>s.lower()\<close>. The letters \<open>A\<close> to \<open>Z\<close> are lowered, and so are the two characters
  beyond ASCII whose lowercase has an ASCII letter in it: the Kelvin sign (U+212A, lowered
  to \<open>k\<close>) and the dotted capital I (U+0130, lowered to \<open>i\<close> and a combining dot). Python
  lowers the other letters beyond ASCII too, always to characters beyond ASCII; the model
  leaves those as they are, which changes no comparison with an ASCII suffix.
\<close>

function lower :: "string \<Rightarrow> string" where
  "lower [] = []"
| "lower (c # cs) =
     (if c = CHR 0xE2 \<and> take 2 cs = [CHR 0x84, CHR 0xAA] then CHR ''k'' # lower (drop 2 cs)
      else if c = CHR 0xC4 \<and> take 1 cs = [CHR 0xB0]
      then [CHR ''i'', CHR 0xCC, CHR 0x87] @ lower (drop 1 cs)
      else lower_char c # lower cs)"
  by pat_completeness auto
termination
  by (relation "measure length") auto

declare lower.simps [simp del]

definition endswith :: "string \<Rightarrow> string \<Rightarrow> bool" where
  "endswith s e = suffix e s"

definition startswith :: "string \<Rightarrow> string \<Rightarrow> bool" where
  "startswith s p = prefix p s"

text \<open>\<open>s.replace(a, b)\<close> for one-character \<open>a\<close> and \<open>b\<close>.\<close>

definition replace_char :: "char \<Rightarrow> char \<Rightarrow> string \<Rightarrow> string" where
  "replace_char a b s = map (\<lambda>c. if c = a then b else c) s"

text \<open>The characters \<open>str.strip()\<close> removes (those with \<open>isspace()\<close>), in UTF-8.\<close>

definition whitespace :: "string list" where
  "whitespace =
     [[CHR 0x09], [CHR 0x0A], [CHR 0x0B], [CHR 0x0C], [CHR 0x0D],
      [CHR 0x1C], [CHR 0x1D], [CHR 0x1E], [CHR 0x1F], [CHR 0x20],
      [CHR 0xC2, CHR 0x85], [CHR 0xC2, CHR 0xA0], [CHR 0xE1, CHR 0x9A, CHR 0x80],
      [CHR 0xE2, CHR 0x80, CHR 0x80], [CHR 0xE2, CHR 0x80, CHR 0x81],
      [CHR 0xE2, CHR 0x80, CHR 0x82], [CHR 0xE2, CHR 0x80, CHR 0x83],
      [CHR 0xE2, CHR 0x80, CHR 0x84], [CHR 0xE2, CHR 0x80, CHR 0x85],
      [CHR 0xE2, CHR 0x80, CHR 0x86], [CHR 0xE2, CHR 0x80, CHR 0x87],
      [CHR 0xE2, CHR 0x80, CHR 0x88], [CHR 0xE2, CHR 0x80, CHR 0x89],
      [CHR 0xE2, CHR 0x80, CHR 0x8A], [CHR 0xE2, CHR 0x80, CHR 0xA8],
      [CHR 0xE2, CHR 0x80, CHR 0xA9], [CHR 0xE2, CHR 0x80, CHR 0xAF],
      [CHR 0xE2, CHR 0x81, CHR 0x9F], [CHR 0xE3, CHR 0x80, CHR 0x80]]"

text \<open>The length of the whitespace character a string starts with or ends with; 0 when
  there is none.\<close>

definition space_before :: "string \<Rightarrow> nat" where
  "space_before s = (case find (\<lambda>ws. prefix ws s) whitespace of None \<Rightarrow> 0 | Some ws \<Rightarrow> length ws)"

definition space_after :: "string \<Rightarrow> nat" where
  "space_after s = (case find (\<lambda>ws. suffix ws s) whitespace of None \<Rightarrow> 0 | Some ws \<Rightarrow> length ws)"

lemma space_before_le: "space_before s \<le> length s"
  by (auto simp: space_before_def find_Some_iff prefix_def split: option.splits)

lemma space_after_le: "space_after s \<le> length s"
  by (auto simp: space_after_def find_Some_iff suffix_def split: option.splits)

function lstrip :: "string \<Rightarrow> string" where
  "lstrip s = (if space_before s = 0 then s else lstrip (drop (space_before s) s))"
  by pat_completeness auto
termination
proof (relation "measure length")
  show "wf (measure length)" by simp
next
  fix s :: string
  assume "space_before s \<noteq> 0"
  with space_before_le [of s] show "(drop (space_before s) s, s) \<in> measure length"
    by (cases s) auto
qed

function rstrip :: "string \<Rightarrow> string" where
  "rstrip s = (if space_after s = 0 then s else rstrip (take (length s - space_after s) s))"
  by pat_completeness auto
termination
proof (relation "measure length")
  show "wf (measure length)" by simp
next
  fix s :: string
  assume "space_after s \<noteq> 0"
  with space_after_le [of s] show "(take (length s - space_after s) s, s) \<in> measure length"
    by (cases s) auto
qed

declare lstrip.simps [simp del] rstrip.simps [simp del]

definition strip :: "string \<Rightarrow> string" where
  "strip s = rstrip (lstrip s)"

text \<open>
  Whether the bytes are valid UTF-8, that is, whether the \<open>str\<close> they stand for can be
  written to a file opened with \<open>encoding='utf-8'\<close> (a name with other bytes holds lone
  surrogates, and writing it raises).
\<close>

definition in_range :: "char \<Rightarrow> nat \<Rightarrow> nat \<Rightarrow> bool" where
  "in_range c lo hi = (lo \<le> of_char c \<and> of_char c \<le> hi)"

function valid_utf8 :: "string \<Rightarrow> bool" where
  "valid_utf8 [] = True"
| "valid_utf8 (a # s) =
     (if in_range a 0x00 0x7F then valid_utf8 s
      else if in_range a 0xC2 0xDF
      then 1 \<le> length s \<and> in_range (s ! 0) 0x80 0xBF \<and> valid_utf8 (drop 1 s)
      else if in_range a 0xE0 0xEF
      then 2 \<le> length s
           \<and> in_range (s ! 0) (if a = CHR 0xE0 then 0xA0 else 0x80)
                               (if a = CHR 0xED then 0x9F else 0xBF)
           \<and> in_range (s ! 1) 0x80 0xBF \<and> valid_utf8 (drop 2 s)
      else if in_range a 0xF0 0xF4
      then 3 \<le> length s
           \<and> in_range (s ! 0) (if a = CHR 0xF0 then 0x90 else 0x80)
                               (if a = CHR 0xF4 then 0x8F else 0xBF)
           \<and> in_range (s ! 1) 0x80 0xBF \<and> in_range (s ! 2) 0x80 0xBF \<and> valid_utf8 (drop 3 s)
      else False)"
  by pat_completeness auto
termination
  by (relation "measure length") auto

declare valid_utf8.simps [simp del]

text \<open>\<open>s.split(c, 1)\<close> when \<open>c\<close> occurs in \<open>s\<close>: the parts before and after the first \<open>c\<close>.\<close>

definition split_first :: "char \<Rightarrow> string \<Rightarrow> string \<times> string" where
  "split_first c s = (takeWhile (\<lambda>x. x \<noteq> c) s, drop 1 (dropWhile (\<lambda>x. x \<noteq> c) s))"

text \<open>\<open>s.split(c)\<close>: all the parts between occurrences of \<open>c\<close>.\<close>

fun split_all :: "char \<Rightarrow> string \<Rightarrow> string list" where
  "split_all c [] = [[]]"
| "split_all c (x # xs) =
     (if x = c then [] # split_all c xs
      else (case split_all c xs of [] \<Rightarrow> [[x]] | y # ys \<Rightarrow> (x # y) # ys))"

text \<open>\<open>sep.join(xs)\<close>.\<close>

fun join_str :: "string \<Rightarrow> string list \<Rightarrow> string" where
  "join_str sep [] = []"
| "join_str sep [x] = x"
| "join_str sep (x # y # ys) = x @ sep @ join_str sep (y # ys)"

section \<open>hashlib.sha1\<close>

text \<open>
  SHA-1 as FIPS 180-4 defines it: the message is padded with \<open>0x80\<close>, zeros and its 64-bit
  big-endian bit length to a multiple of 64 bytes, and every 64-byte block updates five
  32-bit words in 80 rounds.
\<close>

definition be32 :: "bytes \<Rightarrow> 32 word" where
  "be32 bs = foldl (\<lambda>w c. push_bit 8 w OR of_char c) 0 (take 4 bs)"

fun words16 :: "nat \<Rightarrow> bytes \<Rightarrow> 32 word list" where
  "words16 0 bs = []"
| "words16 (Suc n) bs = be32 bs # words16 n (drop 4 bs)"

definition be64_bytes :: "64 word \<Rightarrow> bytes" where
  "be64_bytes w = map (\<lambda>i. char_of (unat (drop_bit (8 * (7 - i)) w AND 0xFF))) [0..<8]"

definition sha1_pad :: "bytes \<Rightarrow> bytes" where
  "sha1_pad m = m @ [CHR 0x80] @ replicate ((119 - length m mod 64) mod 64) (CHR 0x00)
                  @ be64_bytes (word_of_nat (8 * length m))"

fun sha1_schedule :: "nat \<Rightarrow> 32 word list \<Rightarrow> 32 word list" where
  "sha1_schedule 0 ws = ws"
| "sha1_schedule (Suc n) ws =
     sha1_schedule n (ws @ [word_rotl 1 (ws ! (length ws - 3) XOR ws ! (length ws - 8)
                                          XOR ws ! (length ws - 14) XOR ws ! (length ws - 16))])"

type_synonym sha1_state = "32 word \<times> 32 word \<times> 32 word \<times> 32 word \<times> 32 word"

definition sha1_f :: "nat \<Rightarrow> 32 word \<Rightarrow> 32 word \<Rightarrow> 32 word \<Rightarrow> 32 word" where
  "sha1_f t b c d =
     (if t < 20 then (b AND c) OR (NOT b AND d)
      else if t < 40 then b XOR c XOR d
      else if t < 60 then (b AND c) OR (b AND d) OR (c AND d)
      else b XOR c XOR d)"

definition sha1_k :: "nat \<Rightarrow> 32 word" where
  "sha1_k t =
     (if t < 20 then 0x5A827999 else if t < 40 then 0x6ED9EBA1
      else if t < 60 then 0x8F1BBCDC else 0xCA62C1D6)"

fun sha1_round :: "32 word list \<Rightarrow> sha1_state \<Rightarrow> nat \<Rightarrow> sha1_state" where
  "sha1_round ws (a, b, c, d, e) t =
     (word_rotl 5 a + sha1_f t b c d + e + sha1_k t + ws ! t, a, word_rotl 30 b, c, d)"

fun sha1_block :: "sha1_state \<Rightarrow> bytes \<Rightarrow> sha1_state" where
  "sha1_block (h0, h1, h2, h3, h4) blk =
     (case foldl (sha1_round (sha1_schedule 64 (words16 16 blk))) (h0, h1, h2, h3, h4) [0..<80] of
        (a, b, c, d, e) \<Rightarrow> (h0 + a, h1 + b, h2 + c, h3 + d, h4 + e))"

fun sha1_blocks :: "nat \<Rightarrow> sha1_state \<Rightarrow> bytes \<Rightarrow> sha1_state" where
  "sha1_blocks 0 h bs = h"
| "sha1_blocks (Suc n) h bs = sha1_blocks n (sha1_block h (take 64 bs)) (drop 64 bs)"

definition sha1_init :: sha1_state where
  "sha1_init = (0x67452301, 0xEFCDAB89, 0x98BADCFE, 0x10325476, 0xC3D2E1F0)"

definition sha1 :: "bytes \<Rightarrow> sha1_state" where
  "sha1 m = sha1_blocks (length (sha1_pad m) div 64) sha1_init (sha1_pad m)"

definition hex_digit :: "nat \<Rightarrow> char" where
  "hex_digit n = ''0123456789abcdef'' ! (n mod 16)"

definition hex32 :: "32 word \<Rightarrow> string" where
  "hex32 w = map (\<lambda>i. hex_digit (unat (drop_bit (4 * (7 - i)) w AND 0xF))) [0..<8]"

fun sha1_hex :: "sha1_state \<Rightarrow> string" where
  "sha1_hex (h0, h1, h2, h3, h4) = hex32 h0 @ hex32 h1 @ hex32 h2 @ hex32 h3 @ hex32 h4"

text \<open>
  The hash object of \<open>hashlib.sha1()\<close> is the bytes fed to it so far: \<open>update\<close> appends,
  \<open>hexdigest\<close> renders the SHA-1 digest of everything fed in lowercase hexadecimal.
\<close>

definition hashlib_sha1 :: bytes where
  "hashlib_sha1 = []"

definition update :: "bytes \<Rightarrow> bytes \<Rightarrow> bytes" where
  "update h d = h @ d"

definition hexdigest :: "bytes \<Rightarrow> string" where
  "hexdigest h = sha1_hex (sha1 h)"

section \<open>git_blob_sha1\<close>

definition git_blob_sha1 :: "bytes \<Rightarrow> string" where
  "git_blob_sha1 data =
     (let header = ''blob '' @ str_nat (length data) @ [CHR 0x00];
          h = hashlib_sha1;
          h = update h header;
          h = update h data
      in hexdigest h)"

section \<open>os.path\<close>

text \<open>The POSIX versions of the \<open>os.path\<close> functions the script calls.\<close>

definition path_join :: "string \<Rightarrow> string \<Rightarrow> string" where
  "path_join a b =
     (if startswith b ''/'' then b
      else if a = [] \<or> endswith a ''/'' then a @ b
      else a @ ''/'' @ b)"

definition basename :: "string \<Rightarrow> string" where
  "basename p = rev (takeWhile (\<lambda>c. c \<noteq> CHR ''/'') (rev p))"

definition dirname :: "string \<Rightarrow> string" where
  "dirname p =
     (let head = rev (dropWhile (\<lambda>c. c \<noteq> CHR ''/'') (rev p))
      in if head \<noteq> [] \<and> head \<noteq> replicate (length head) (CHR ''/'')
         then rev (dropWhile (\<lambda>c. c = CHR ''/'') (rev head))
         else head)"

fun normpath_comps :: "bool \<Rightarrow> string list \<Rightarrow> string list \<Rightarrow> string list" where
  "normpath_comps initial_slashes [] new_comps = new_comps"
| "normpath_comps initial_slashes (cmp # comps) new_comps =
     (if cmp = [] \<or> cmp = ''.'' then normpath_comps initial_slashes comps new_comps
      else if cmp \<noteq> ''..'' \<or> (\<not> initial_slashes \<and> new_comps = [])
                \<or> (new_comps \<noteq> [] \<and> last new_comps = ''..'')
      then normpath_comps initial_slashes comps (new_comps @ [cmp])
      else if new_comps \<noteq> [] then normpath_comps initial_slashes comps (butlast new_comps)
      else normpath_comps initial_slashes comps new_comps)"

definition normpath :: "string \<Rightarrow> string" where
  "normpath p =
     (if p = [] then ''.''
      else
        let initial_slashes =
              (if startswith p ''/''
               then (if startswith p ''//'' \<and> \<not> startswith p ''///'' then 2 else 1 :: nat)
               else 0);
            comps = normpath_comps (initial_slashes \<noteq> 0) (split_all (CHR ''/'') p) [];
            path = replicate initial_slashes (CHR ''/'') @ join_str ''/'' comps
        in if path = [] then ''.'' else path)"

text \<open>
  \<open>os.path.relpath(path, start)\<close> for the calls \<open>gather_files\<close> makes: \<open>path\<close> is
  \<open>start\<close> joined with the names of directory entries below it, and the result is what
  follows \<open>start\<close> and its separator.
\<close>

definition relpath :: "string \<Rightarrow> string \<Rightarrow> string" where
  "relpath path start =
     (if endswith start ''/'' then drop (length start) path else drop (Suc (length start)) path)"

section \<open>The file system\<close>

text \<open>
  The file system is what the script observes of it. \<open>dir_at p\<close> is the tree of directory
  entries below the path \<open>p\<close> as the scan of a run sees it, each directory listing its
  entries in the order the operating system enumerates them (\<open>None\<close>: \<open>p\<close> is not a
  directory). \<open>links\<close> lists the paths of the regular files, each with the number of the
  file it names: two paths with one number are links to one file (hard links; a symbolic
  link to a file behaves the same when it is opened, read or written). \<open>data_at\<close> is what
  reading a file gives: its content, or the text of the exception raised. The write of
  the manifest comes after the scan of its run; what it adds to later listings is not
  modelled, a later run is given its own.
\<close>

datatype node = File | Dir "(string \<times> node) list"

record world =
  dir_at :: "string \<Rightarrow> node option"
  links :: "(string \<times> nat) list"
  data_at :: "nat \<Rightarrow> string + bytes"

definition enoent :: string where
  "enoent = ''[Errno 2] No such file or directory''"

definition link_at :: "world \<Rightarrow> string \<Rightarrow> nat option" where
  "link_at w p = map_of (links w) p"

text \<open>\<open>open(p, 'rb').read()\<close>: the content, or the text of the exception (a path that names
  no file, or a file that cannot be read).\<close>

definition file_at :: "world \<Rightarrow> string \<Rightarrow> string + bytes" where
  "file_at w p = (case link_at w p of None \<Rightarrow> Inl enoent | Some i \<Rightarrow> data_at w i)"

definition isdir :: "world \<Rightarrow> string \<Rightarrow> bool" where
  "isdir w p = (case dir_at w p of Some (Dir es) \<Rightarrow> True | _ \<Rightarrow> False)"

definition is_dir_node :: "node \<Rightarrow> bool" where
  "is_dir_node n = (case n of Dir es \<Rightarrow> True | File \<Rightarrow> False)"

definition dir_names :: "(string \<times> node) list \<Rightarrow> string list" where
  "dir_names es = map fst (filter (\<lambda>e. is_dir_node (snd e)) es)"

definition file_names :: "(string \<times> node) list \<Rightarrow> string list" where
  "file_names es = map fst (filter (\<lambda>e. \<not> is_dir_node (snd e)) es)"

text \<open>
  The loop \<open>for root, dirs, filenames in os.walk(source_dir)\<close> with the two in-place sorts
  of its body: \<open>os.walk\<close> is top-down, so it descends into \<open>dirs\<close> in the order the body
  left them in, looking each name up in the directory.
\<close>

function walk :: "string \<Rightarrow> node \<Rightarrow> (string \<times> string list \<times> string list) list" where
  "walk root File = []"
| "walk root (Dir es) =
     (root, sort (dir_names es), sort (file_names es))
       # concat (map (\<lambda>d. case map_of es d of None \<Rightarrow> [] | Some c \<Rightarrow> walk (path_join root d) c)
                     (sort (dir_names es)))"
  by pat_completeness auto
termination
proof (relation "measure (\<lambda>(root, n). size n)")
  show "wf (measure (\<lambda>(root, n). size n))" by simp
next
  fix root :: string and es :: "(string \<times> node) list" and d c
  assume "map_of es d = Some c"
  then have "(d, c) \<in> set es" by (rule map_of_SomeD)
  then have "size c < Suc (size_list (size_prod (\<lambda>x. 0) size) es)"
    by (induction es) auto
  then show "((path_join root d, c), (root, Dir es)) \<in> measure (\<lambda>(root, n). size n)"
    by simp
qed

section \<open>gather_files\<close>

definition included :: "string set \<Rightarrow> string \<Rightarrow> bool" where
  "included include_exts fn =
     (\<not> (include_exts \<noteq> {} \<and> \<not> (\<exists>e \<in> include_exts. endswith (lower fn) e)))"

definition gather_files :: "world \<Rightarrow> string \<Rightarrow> string set option \<Rightarrow> (string \<times> string) list" where
  "gather_files w source_dir include_exts_arg =
     (let include_exts = (case include_exts_arg of None \<Rightarrow> {''.json''} | Some s \<Rightarrow> s)
      in concat (map (\<lambda>(root, dirs, filenames).
                        map (\<lambda>fn. let full = path_join root fn;
                                       rel = relpath full source_dir
                                   in (full, replace_char (CHR 0x5C) (CHR ''/'') rel))
                            (filter (included include_exts) filenames))
                     (case dir_at w source_dir of None \<Rightarrow> [] | Some t \<Rightarrow> walk source_dir t)))"

section \<open>build_manifest\<close>

text \<open>A Python dict: an association list in insertion order; storing under a key that is
  present replaces the value where it stands.\<close>

type_synonym 'v dict = "(string \<times> 'v) list"

fun dict_set :: "'v dict \<Rightarrow> string \<Rightarrow> 'v \<Rightarrow> 'v dict" where
  "dict_set [] k v = [(k, v)]"
| "dict_set ((k', v') # d) k v = (if k' = k then (k, v) # d else (k', v') # dict_set d k v)"

definition dict_has :: "'v dict \<Rightarrow> string \<Rightarrow> bool" where
  "dict_has d k = (k \<in> set (map fst d))"

record entry =
  sha :: string
  size_e :: nat

definition read_warning :: "string \<Rightarrow> string \<Rightarrow> string" where
  "read_warning full e = ''Warning: failed to read '' @ full @ '': '' @ e"

text \<open>The loop over the gathered files; the state is the dict and the lines written to
  standard error.\<close>

fun build_loop ::
  "world \<Rightarrow> string \<Rightarrow> (string \<times> string) list \<Rightarrow> entry dict \<times> string list
     \<Rightarrow> entry dict \<times> string list" where
  "build_loop w source_key [] st = st"
| "build_loop w source_key ((full, rel) # rest) (manifest_files, err) =
     (case file_at w full of
        Inl e \<Rightarrow> build_loop w source_key rest (manifest_files, err @ [read_warning full e])
      | Inr data \<Rightarrow>
          build_loop w source_key rest
            (dict_set manifest_files
               (if source_key \<noteq> [] then source_key @ ''/'' @ rel else rel)
               \<lparr>sha = git_blob_sha1 data, size_e = length data\<rparr>,
             err))"

definition build_manifest :: "world \<Rightarrow> string \<Rightarrow> string \<Rightarrow> entry dict \<times> string list" where
  "build_manifest w source_dir source_key =
     build_loop w source_key (gather_files w source_dir None) ([], [])"

section \<open>json.dump\<close>

text \<open>The JSON values the script builds: strings, integers and dicts in insertion order.\<close>

datatype json = JStr string | JInt int | JObj "(string \<times> json) list"

definition str_int :: "int \<Rightarrow> string" where
  "str_int i = (if i < 0 then ''-'' @ str_nat (nat (- i)) else str_nat (nat i))"

text \<open>The string encoder used with \<open>ensure_ascii=False\<close>: the quote, the backslash and the
  control characters below \<open>0x20\<close> are escaped, everything else is written as it is.\<close>

definition escape_char :: "char \<Rightarrow> string" where
  "escape_char c =
     (if c = CHR 0x5C then [CHR 0x5C, CHR 0x5C]
      else if c = CHR 0x22 then [CHR 0x5C, CHR 0x22]
      else if c = CHR 0x08 then [CHR 0x5C, CHR ''b'']
      else if c = CHR 0x0C then [CHR 0x5C, CHR ''f'']
      else if c = CHR 0x0A then [CHR 0x5C, CHR ''n'']
      else if c = CHR 0x0D then [CHR 0x5C, CHR ''r'']
      else if c = CHR 0x09 then [CHR 0x5C, CHR ''t'']
      else if c < CHR 0x20
      then [CHR 0x5C, CHR ''u'', CHR ''0'', CHR ''0'',
            hex_digit (of_char c div 16), hex_digit (of_char c mod 16)]
      else [c])"

definition encode_basestring :: "string \<Rightarrow> string" where
  "encode_basestring s = [CHR 0x22] @ concat (map escape_char s) @ [CHR 0x22]"

definition newline_indent :: "nat \<Rightarrow> string" where
  "newline_indent lvl = CHR 0x0A # replicate (2 * lvl) (CHR '' '')"

text \<open>\<open>json.dumps(v, indent=2, ensure_ascii=False)\<close> at nesting level \<open>lvl\<close>.\<close>

fun json_dumps :: "nat \<Rightarrow> json \<Rightarrow> string"
  and json_items :: "nat \<Rightarrow> (string \<times> json) list \<Rightarrow> string list" where
  "json_dumps lvl (JStr s) = encode_basestring s"
| "json_dumps lvl (JInt i) = str_int i"
| "json_dumps lvl (JObj []) = ''{}''"
| "json_dumps lvl (JObj (kv # kvs)) =
     ''{'' @ newline_indent (Suc lvl)
       @ join_str ('','' @ newline_indent (Suc lvl)) (json_items (Suc lvl) (kv # kvs))
       @ newline_indent lvl @ ''}''"
| "json_items lvl [] = []"
| "json_items lvl ((k, v) # kvs) =
     (encode_basestring k @ '': '' @ json_dumps lvl v) # json_items lvl kvs"

section \<open>write_output\<close>

datatype io_error = MakedirsError | OpenError | WriteError | ReplaceError | EncodeError

text \<open>
  What the operating system refuses during the write, if anything: creating the parent
  directory, opening the temporary file, writing it (after so many characters), or the
  rename. The first refusal raises and ends the run, so one fault describes a run.
\<close>

datatype fault = NoFault | MkdirFault | OpenFault | WriteFault nat | ReplaceFault

text \<open>\<open>os.makedirs(name, exist_ok=True)\<close>: nothing happens when \<open>name\<close> is a directory
  already; otherwise it is created, or the call raises.\<close>

definition makedirs :: "fault \<Rightarrow> string \<Rightarrow> world \<Rightarrow> io_error + world" where
  "makedirs flt name w =
     (if isdir w name then Inr w
      else if flt = MkdirFault then Inl MakedirsError
      else Inr (w\<lparr>dir_at := (dir_at w)(name \<mapsto> Dir [])\<rparr>))"

text \<open>A file number that no path names.\<close>

definition fresh_file :: "world \<Rightarrow> nat" where
  "fresh_file w = Suc (foldr max (map snd (links w)) 0)"

text \<open>
  \<open>open(p, 'w')\<close> when it succeeds: the file that \<open>p\<close> names is emptied, through whatever
  link; when \<open>p\<close> names no file a new one is created. The result is the file opened.
\<close>

definition open_w :: "world \<Rightarrow> string \<Rightarrow> nat \<times> world" where
  "open_w w p =
     (case link_at w p of
        Some i \<Rightarrow> (i, w\<lparr>data_at := (data_at w)(i := Inr [])\<rparr>)
      | None \<Rightarrow>
          (fresh_file w,
           w\<lparr>links := links w @ [(p, fresh_file w)],
             data_at := (data_at w)(fresh_file w := Inr [])\<rparr>))"

text \<open>The content of an open file after writing \<open>s\<close> to it and closing it.\<close>

definition write_data :: "world \<Rightarrow> nat \<Rightarrow> bytes \<Rightarrow> world" where
  "write_data w i s = w\<lparr>data_at := (data_at w)(i := Inr s)\<rparr>"

text \<open>
  \<open>os.replace(src, dst)\<close> when it succeeds: \<open>dst\<close> names the file \<open>src\<close> named and \<open>src\<close>
  is gone; when both name one file already, nothing changes.
\<close>

definition os_replace :: "world \<Rightarrow> string \<Rightarrow> string \<Rightarrow> world" where
  "os_replace w src dst =
     (case link_at w src of
        None \<Rightarrow> w
      | Some i \<Rightarrow>
          if link_at w dst = Some i then w
          else w\<lparr>links := dict_set (filter (\<lambda>e. fst e \<noteq> src) (links w)) dst i\<rparr>)"

definition entry_json :: "entry \<Rightarrow> json" where
  "entry_json v = JObj [(''sha'', JStr (sha v)), (''size'', JInt (int (size_e v)))]"

text \<open>The loop filling \<open>obj['files']\<close>; \<open>k\<close> ranges over the keys of \<open>files_map\<close>, so the
  lookup \<open>files_map[k]\<close> finds it.\<close>

definition files_step :: "entry dict \<Rightarrow> json dict \<Rightarrow> string \<Rightarrow> json dict" where
  "files_step files_map d k =
     (case map_of files_map k of None \<Rightarrow> d | Some v \<Rightarrow> dict_set d k (entry_json v))"

definition files_obj :: "entry dict \<Rightarrow> json dict" where
  "files_obj files_map = foldl (files_step files_map) [] (sort (map fst files_map))"

definition manifest_obj :: "string \<Rightarrow> entry dict \<Rightarrow> json" where
  "manifest_obj now files_map =
     JObj [(''generated'', JStr now), (''files'', JObj (files_obj files_map))]"

definition document :: "string \<Rightarrow> entry dict \<Rightarrow> string" where
  "document now files_map = json_dumps 0 (manifest_obj now files_map) @ [CHR 0x0A]"

definition wrote_message :: "string \<Rightarrow> entry dict \<Rightarrow> string" where
  "wrote_message out_path files_map =
     ''Wrote manifest to '' @ out_path @ '' ('' @ str_nat (length files_map) @ '' files)''"

text \<open>
  What \<open>json.dump\<close> has written when a key cannot be encoded: the encoder hands the file
  one piece at a time, and the pieces before that key went through.
\<close>

definition encodable_part :: "string \<Rightarrow> entry dict \<Rightarrow> string" where
  "encodable_part now files_map =
     ''{'' @ newline_indent 1 @ encode_basestring ''generated'' @ '': ''
       @ encode_basestring now @ '','' @ newline_indent 1
       @ encode_basestring ''files'' @ '': '' @ ''{'' @ newline_indent 2
       @ concat (map (\<lambda>item. item @ '','' @ newline_indent 2)
                     (json_items 2 (takeWhile (\<lambda>kv. valid_utf8 (fst kv)) (files_obj files_map))))"

text \<open>
  \<open>now\<close> is the value of \<open>datetime.now(timezone.utc).isoformat()\<close> in this run, an ASCII
  string. The result is the exception raised or the line printed, and the file system
  the call leaves.
\<close>

definition write_output ::
  "fault \<Rightarrow> string \<Rightarrow> world \<Rightarrow> string \<Rightarrow> entry dict \<Rightarrow> (io_error + string) \<times> world" where
  "write_output flt now w out_path files_map =
     (let d = dirname out_path in
      case makedirs flt (if d \<noteq> [] then d else ''.'') w of
        Inl e \<Rightarrow> (Inl e, w)
      | Inr w1 \<Rightarrow>
          (let tmp = out_path @ ''.tmp'';
               doc = document now files_map
           in if flt = OpenFault then (Inl OpenError, w1)
              else (case open_w w1 tmp of (f, w2) \<Rightarrow>
                      (case flt of
                         WriteFault n \<Rightarrow>
                           (Inl WriteError,
                            write_data w2 f
                              (take n (if list_all valid_utf8 (map fst files_map) then doc
                                       else encodable_part now files_map)))
                       | _ \<Rightarrow>
                           if \<not> list_all valid_utf8 (map fst files_map)
                           then (Inl EncodeError,
                                 write_data w2 f (encodable_part now files_map))
                           else if flt = ReplaceFault
                           then (Inl ReplaceError, write_data w2 f doc)
                           else (Inr (wrote_message out_path files_map),
                                 os_replace (write_data w2 f doc) tmp out_path)))))"

section \<open>main\<close>

datatype outcome = Exit nat | Raised io_error

record result =
  outcome :: outcome
  stderr :: "string list"
  stdout :: "string list"
  world_after :: world

definition skip_warning :: "string \<Rightarrow> string" where
  "skip_warning path = ''Warning: source directory does not exist, skipping: '' @ path"

definition duplicate_warning :: "string \<Rightarrow> string" where
  "duplicate_warning k =
     ''Warning: duplicate key in manifest for '' @ k @ '', overwriting with latest source''"

definition no_source_error :: string where
  "no_source_error = ''Error: at least one --source (-s) is required''"

definition no_files_error :: string where
  "no_files_error = ''Error: no files found in any sources''"

text \<open>A source is \<open>key=path\<close> or a bare path, whose key is its last segment.\<close>

definition parse_source :: "string \<Rightarrow> string \<times> string" where
  "parse_source s =
     (if CHR ''='' \<in> set s
      then (case split_first (CHR ''='') s of (key, path) \<Rightarrow> (strip key, strip path))
      else (basename (normpath s), s))"

text \<open>The merge loop over \<open>files_map.items()\<close>.\<close>

fun merge_items :: "entry dict \<times> string list \<Rightarrow> entry dict \<Rightarrow> entry dict \<times> string list" where
  "merge_items st [] = st"
| "merge_items (combined, err) ((k, v) # items) =
     merge_items (dict_set combined k v,
                  if dict_has combined k then err @ [duplicate_warning k] else err) items"

text \<open>The loop over \<open>args.source\<close>.\<close>

fun source_loop ::
  "world \<Rightarrow> string list \<Rightarrow> entry dict \<times> string list \<Rightarrow> entry dict \<times> string list" where
  "source_loop w [] st = st"
| "source_loop w (s # ss) (combined, err) =
     (case parse_source s of (key, path) \<Rightarrow>
        if \<not> isdir w path then source_loop w ss (combined, err @ [skip_warning path])
        else (case build_manifest w path key of (files_map, warnings) \<Rightarrow>
                source_loop w ss (merge_items (combined, err @ warnings) files_map)))"

text \<open>
  \<open>main\<close> after argument parsing: \<open>source\<close>, \<open>output\<close> and \<open>include_ext\<close> are the parsed
  arguments (\<open>include_ext\<close> is the default list \<open>['.json']\<close> followed by the values given
  with \<open>-e\<close>). The set \<open>exts\<close> is computed and not passed on.
\<close>

definition main ::
  "fault \<Rightarrow> string \<Rightarrow> world \<Rightarrow> string list \<Rightarrow> string \<Rightarrow> string list \<Rightarrow> result" where
  "main flt now w source output include_ext =
     (if source = []
      then \<lparr>outcome = Exit 2, stderr = [no_source_error], stdout = [], world_after = w\<rparr>
      else
        let exts = set (map (\<lambda>e. if startswith e ''.'' then e else ''.'' @ e) include_ext)
        in case source_loop w source ([], []) of (combined, err) \<Rightarrow>
             if combined = []
             then \<lparr>outcome = Exit 2, stderr = err @ [no_files_error], stdout = [],
                   world_after = w\<rparr>
             else (case write_output flt now w output combined of
                     (Inl e, w') \<Rightarrow>
                       \<lparr>outcome = Raised e, stderr = err, stdout = [], world_after = w'\<rparr>
                   | (Inr line, w') \<Rightarrow>
                       \<lparr>outcome = Exit 0, stderr = err, stdout = [line], world_after = w'\<rparr>))"

section \<open>Two views of one directory tree\<close>



section \<open>Example file systems\<close>

text \<open>
  A file system with a directory \<open>cards\<close> (two JSON files of which one cannot be read, a
  text file, and a subdirectory holding a file with an uppercase extension), and two
  directories \<open>dirA\<close> and \<open>dirB\<close> that each hold a file \<open>x.json\<close>.
\<close>

definition cards_tree :: node where
  "cards_tree = Dir [(''b.json'', File), (''sub'', Dir [(''X.JSON'', File)]),
                     (''a.txt'', File), (''c.json'', File)]"

definition demo_dirs :: "node \<Rightarrow> string \<Rightarrow> node option" where
  "demo_dirs cards p =
     (if p = ''cards'' then Some cards
      else if p = ''dirA'' \<or> p = ''dirB'' then Some (Dir [(''x.json'', File)])
      else if p = ''.'' then Some (Dir [])
      else None)"

definition demo_links :: "(string \<times> nat) list" where
  "demo_links = [(''cards/b.json'', 0), (''cards/a.txt'', 1), (''cards/sub/X.JSON'', 2),
                 (''cards/c.json'', 3), (''dirA/x.json'', 4), (''dirB/x.json'', 5)]"

definition demo_data :: "nat \<Rightarrow> string + bytes" where
  "demo_data i =
     (if i = 0 then Inr ''{}''
      else if i = 1 then Inr ''t''
      else if i = 2 then Inr ''[1]''
      else if i = 3 then Inl ''[Errno 13] Permission denied''
      else if i = 4 then Inr ''A''
      else if i = 5 then Inr ''BB''
      else if i = 6 then Inr ''OLD''
      else Inl enoent)"

definition w_demo :: world where
  "w_demo = \<lparr>dir_at = demo_dirs cards_tree, links = demo_links, data_at = demo_data\<rparr>"




section \<open>The content hash\<close>

lemma length_hex32: "length (hex32 w) = 8"
  by (simp add: hex32_def)

lemma length_sha1_hex: "length (sha1_hex s) = 40"
  by (cases s) (simp add: length_hex32)

lemma hex_digit_lower: "hex_digit n \<in> set ''0123456789abcdef''"
  unfolding hex_digit_def by (rule nth_mem) simp

lemma set_hex32: "set (hex32 w) \<subseteq> set ''0123456789abcdef''"
  unfolding hex32_def using hex_digit_lower by auto

lemma set_sha1_hex: "set (sha1_hex s) \<subseteq> set ''0123456789abcdef''"
  using set_hex32 by (cases s) auto

lemma str_nat_7: "str_nat 7 = ''7''"
  by (simp add: str_nat.simps digit_char_def)

lemma git_blob_sha1_unfold:
  "git_blob_sha1 b = sha1_hex (sha1 (''blob '' @ str_nat (length b) @ [CHR 0x00] @ b))"
  by (simp add: git_blob_sha1_def hashlib_sha1_def update_def hexdigest_def)

text \<open>
  C1. For every byte buffer \<open>b\<close>, \<open>git_blob_sha1 b\<close> is the hexadecimal rendering of the
  SHA-1 digest of the header \<open>blob\<close>, a space, the decimal length of \<open>b\<close> and a NUL byte,
  followed by \<open>b\<close>; it has 40 characters, all of them lowercase hexadecimal digits; and for
  the 7-byte content \<open>{"a":1}\<close> it is the digest of the literal bytes \<open>blob 7\0{"a":1}\<close>.
\<close>

theorem git_blob_sha1_spec:
  \<open>git_blob_sha1 b = sha1_hex (sha1 (''blob '' @ str_nat (length b) @ [CHR 0x00] @ b))
   \<and> length (git_blob_sha1 b) = 40
   \<and> set (git_blob_sha1 b) \<subseteq> set ''0123456789abcdef''
   \<and> git_blob_sha1 ''{"a":1}'' = sha1_hex (sha1 (''blob 7'' @ [CHR 0x00] @ ''{"a":1}''))\<close>
proof (intro conjI)
  show "git_blob_sha1 b = sha1_hex (sha1 (''blob '' @ str_nat (length b) @ [CHR 0x00] @ b))"
    by (rule git_blob_sha1_unfold)
  show "length (git_blob_sha1 b) = 40"
    unfolding git_blob_sha1_unfold by (rule length_sha1_hex)
  show "set (git_blob_sha1 b) \<subseteq> set ''0123456789abcdef''"
    unfolding git_blob_sha1_unfold by (rule set_sha1_hex)
  have len: \<open>length ''{"a":1}'' = 7\<close>
    by simp
  show \<open>git_blob_sha1 ''{"a":1}'' = sha1_hex (sha1 (''blob 7'' @ [CHR 0x00] @ ''{"a":1}''))\<close>
    unfolding git_blob_sha1_unfold len str_nat_7 by simp
qed

theorem git_blob_sha1_spec_witness:
  \<open>length (git_blob_sha1 ''{"a":1}'') = 40
   \<and> set (git_blob_sha1 ''{"a":1}'') \<subseteq> set ''0123456789abcdef''\<close>
  using git_blob_sha1_spec [of \<open>''{"a":1}''\<close>] by blast

section \<open>Dicts and the merge of sources\<close>

lemma map_of_dict_set: "map_of (dict_set d k v) k' = (if k' = k then Some v else map_of d k')"
  by (induction d) auto

lemma keys_dict_set: "fst ` set (dict_set d k v) = insert k (fst ` set d)"
  by (induction d) force+

lemma distinct_dict_set: "distinct (map fst d) \<Longrightarrow> distinct (map fst (dict_set d k v))"
  by (induction d) (auto simp: keys_dict_set)

lemma build_loop_distinct:
  "distinct (map fst (fst st)) \<Longrightarrow> distinct (map fst (fst (build_loop w key files st)))"
proof (induction files arbitrary: st)
  case Nil
  then show ?case by simp
next
  case (Cons f files)
  obtain full rel where f: "f = (full, rel)" by (cases f)
  obtain d e where st: "st = (d, e)" by (cases st)
  show ?case
    using Cons.prems unfolding f st
    by (cases "file_at w full") (simp_all add: Cons.IH distinct_dict_set)
qed

lemma build_manifest_distinct: "distinct (map fst (fst (build_manifest w p key)))"
  unfolding build_manifest_def by (rule build_loop_distinct) simp

lemma merge_items_lookup:
  "distinct (map fst m) \<Longrightarrow>
   map_of (fst (merge_items (c, e) m)) k
     = (case map_of m k of None \<Rightarrow> map_of c k | Some v \<Rightarrow> Some v)"
proof (induction m arbitrary: c e)
  case Nil
  then show ?case by simp
next
  case (Cons a m)
  obtain k' v' where a: "a = (k', v')" by (cases a)
  from Cons.prems have d: "distinct (map fst m)" and notin: "k' \<notin> set (map fst m)"
    by (auto simp: a)
  have none: "map_of m k' = None"
    using notin by (simp add: map_of_eq_None_iff)
  show ?case
    unfolding a using Cons.IH [OF d] none
    by (auto simp: map_of_dict_set split: option.splits)
qed

lemma merge_items_keeps_err: "set e \<subseteq> set (snd (merge_items (c, e) m))"
proof (induction m arbitrary: c e)
  case Nil
  then show ?case by simp
next
  case (Cons a m)
  obtain k' v' where a: "a = (k', v')" by (cases a)
  show ?case
    unfolding a using Cons.IH [of "if dict_has c k' then e @ [duplicate_warning k'] else e" "dict_set c k' v'"]
    by (auto split: if_splits)
qed

lemma merge_items_warns:
  "k \<in> set (map fst c) \<Longrightarrow> k \<in> set (map fst m) \<Longrightarrow>
   duplicate_warning k \<in> set (snd (merge_items (c, e) m))"
proof (induction m arbitrary: c e)
  case Nil
  then show ?case by simp
next
  case (Cons a m)
  obtain k' v' where a: "a = (k', v')" by (cases a)
  show ?case
  proof (cases "k' = k")
    case True
    have "dict_has c k" using Cons.prems(1) by (simp add: dict_has_def)
    then have "duplicate_warning k \<in> set (if dict_has c k then e @ [duplicate_warning k] else e)"
      by simp
    then show ?thesis
      unfolding a True using merge_items_keeps_err by fastforce
  next
    case False
    then have km: "k \<in> set (map fst m)" using Cons.prems(2) by (auto simp: a)
    have kc: "k \<in> set (map fst (dict_set c k' v'))"
      using Cons.prems(1) by (simp add: keys_dict_set)
    show ?thesis
      unfolding a using Cons.IH [OF kc km] by simp
  qed
qed

lemma source_loop_Cons_dir:
  "parse_source s = (key, path) \<Longrightarrow> isdir w path \<Longrightarrow>
   source_loop w (s # ss) st
     = source_loop w ss (merge_items (fst st, snd st @ snd (build_manifest w path key))
                                     (fst (build_manifest w path key)))"
  by (cases st) (simp split: prod.splits)

lemma source_loop_two:
  assumes "parse_source a = (ka, pa)" "parse_source b = (kb, pb)" "isdir w pa" "isdir w pb"
  shows "source_loop w [a, b] ([], [])
           = merge_items (fst (merge_items ([], snd (build_manifest w pa ka)) (fst (build_manifest w pa ka))),
                          snd (merge_items ([], snd (build_manifest w pa ka)) (fst (build_manifest w pa ka)))
                            @ snd (build_manifest w pb kb))
                         (fst (build_manifest w pb kb))"
  by (simp add: source_loop_Cons_dir [OF assms(1,3)] source_loop_Cons_dir [OF assms(2,4)]
      del: source_loop.simps(2))

lemma later_source_wins:
  assumes pa: "parse_source a = (ka, pa)" and pb: "parse_source b = (kb, pb)"
    and da: "isdir w pa" and db: "isdir w pb"
    and ina: "k \<in> set (map fst (fst (build_manifest w pa ka)))"
    and inb: "k \<in> set (map fst (fst (build_manifest w pb kb)))"
  shows "map_of (fst (source_loop w [a, b] ([], []))) k = map_of (fst (build_manifest w pb kb)) k
         \<and> duplicate_warning k \<in> set (snd (source_loop w [a, b] ([], [])))"
proof -
  let ?ma = "fst (build_manifest w pa ka)" and ?mb = "fst (build_manifest w pb kb)"
  let ?ea = "snd (build_manifest w pa ka)" and ?eb = "snd (build_manifest w pb kb)"
  let ?c1 = "fst (merge_items ([], ?ea) ?ma)" and ?e1 = "snd (merge_items ([], ?ea) ?ma)"
  have loop: "source_loop w [a, b] ([], []) = merge_items (?c1, ?e1 @ ?eb) ?mb"
    by (rule source_loop_two [OF pa pb da db])
  obtain vb where vb: "map_of ?mb k = Some vb"
    using inb by (metis map_of_eq_None_iff not_Some_eq set_map)
  have "map_of (fst (merge_items (?c1, ?e1 @ ?eb) ?mb)) k = Some vb"
    by (simp add: merge_items_lookup [OF build_manifest_distinct] vb)
  moreover
  obtain va where va: "map_of ?ma k = Some va"
    using ina by (metis map_of_eq_None_iff not_Some_eq set_map)
  have "map_of ?c1 k = Some va"
    by (simp add: merge_items_lookup [OF build_manifest_distinct] va)
  then have "k \<in> set (map fst ?c1)"
    by (metis map_of_eq_None_iff option.distinct(1) set_map)
  then have "duplicate_warning k \<in> set (snd (merge_items (?c1, ?e1 @ ?eb) ?mb))"
    using inb by (rule merge_items_warns)
  ultimately show ?thesis
    unfolding loop vb by simp
qed

section \<open>Files, links and the effect of the write\<close>



















lemma write_output_NoFault:
  "list_all valid_utf8 (map fst files_map) \<Longrightarrow>
   fst (write_output NoFault now w out_path files_map) = Inr (wrote_message out_path files_map)"
  by (simp add: write_output_def makedirs_def Let_def split: prod.splits)

lemma write_output_NoFault_invalid:
  "\<not> list_all valid_utf8 (map fst files_map) \<Longrightarrow>
   fst (write_output NoFault now w out_path files_map) = Inl EncodeError"
  by (simp add: write_output_def makedirs_def Let_def split: prod.splits)







section \<open>How a run ends\<close>

lemma main_no_source:
  "main flt now w [] output include_ext
     = \<lparr>outcome = Exit 2, stderr = [no_source_error], stdout = [], world_after = w\<rparr>"
  by (simp add: main_def)

lemma main_empty_result:
  assumes "source \<noteq> []" and "source_loop w source ([], []) = ([], err)"
  shows "main flt now w source output include_ext
           = \<lparr>outcome = Exit 2, stderr = err @ [no_files_error], stdout = [], world_after = w\<rparr>"
  using assms by (simp add: main_def)

lemma main_writes:
  assumes "source \<noteq> []" and "fst (source_loop w source ([], [])) \<noteq> []"
  shows "outcome (main flt now w source output include_ext)
           = (case fst (write_output flt now w output (fst (source_loop w source ([], [])))) of
                Inl e \<Rightarrow> Raised e | Inr line \<Rightarrow> Exit 0)"
    and "world_after (main flt now w source output include_ext)
           = snd (write_output flt now w output (fst (source_loop w source ([], []))))"
    and "stdout (main flt now w source output include_ext)
           = (case fst (write_output flt now w output (fst (source_loop w source ([], [])))) of
                Inl e \<Rightarrow> [] | Inr line \<Rightarrow> [line])"
    and "stderr (main flt now w source output include_ext) = snd (source_loop w source ([], []))"
  using assms by (auto simp: main_def split: prod.splits sum.splits)

lemma main_NoFault_outcome:
  "outcome (main NoFault now w source output include_ext)
     = (if source = [] \<or> fst (source_loop w source ([], [])) = [] then Exit 2
        else if list_all valid_utf8 (map fst (fst (source_loop w source ([], [])))) then Exit 0
        else Raised EncodeError)"
proof (cases "source = [] \<or> fst (source_loop w source ([], [])) = []")
  case True
  show ?thesis
  proof (cases "source = []")
    case True
    then show ?thesis by (simp add: main_no_source)
  next
    case False
    with True obtain err where "source_loop w source ([], []) = ([], err)"
      by (cases "source_loop w source ([], [])") simp
    from main_empty_result [OF False this] True show ?thesis by simp
  qed
next
  case False
  then show ?thesis
    by (simp add: main_writes(1) write_output_NoFault write_output_NoFault_invalid)
qed



section \<open>The example file system, evaluated\<close>

lemma gather_cards:
  "gather_files w_demo ''cards'' None
     = [(''cards/b.json'', ''b.json''), (''cards/c.json'', ''c.json''),
        (''cards/sub/X.JSON'', ''sub/X.JSON'')]"
  by code_simp

lemma gather_dirA: "gather_files w_demo ''dirA'' None = [(''dirA/x.json'', ''x.json'')]"
  by code_simp

lemma gather_dirB: "gather_files w_demo ''dirB'' None = [(''dirB/x.json'', ''x.json'')]"
  by code_simp

lemma parse_demo:
  "parse_source ''cards'' = (''cards'', ''cards'')"
  "parse_source ''cards=dirA'' = (''cards'', ''dirA'')"
  "parse_source ''cards=dirB'' = (''cards'', ''dirB'')"
  "parse_source ''missing'' = (''missing'', ''missing'')"
  by code_simp+

lemma isdir_demo:
  "isdir w_demo ''cards''" "isdir w_demo ''dirA''" "isdir w_demo ''dirB''" "isdir w_demo ''.''"
  "\<not> isdir w_demo ''missing''"
  by code_simp+

lemma file_at_demo:
  "file_at w_demo ''cards/b.json'' = Inr ''{}''"
  "file_at w_demo ''cards/sub/X.JSON'' = Inr ''[1]''"
  "file_at w_demo ''cards/c.json'' = Inl ''[Errno 13] Permission denied''"
  "file_at w_demo ''dirA/x.json'' = Inr ''A''"
  "file_at w_demo ''dirB/x.json'' = Inr ''BB''"
  by (simp_all add: file_at_def link_at_def w_demo_def demo_links_def demo_data_def)

lemma build_cards:
  "build_manifest w_demo ''cards'' ''cards''
     = ([(''cards/b.json'', \<lparr>sha = git_blob_sha1 ''{}'', size_e = 2\<rparr>),
         (''cards/sub/X.JSON'', \<lparr>sha = git_blob_sha1 ''[1]'', size_e = 3\<rparr>)],
        [read_warning ''cards/c.json'' ''[Errno 13] Permission denied''])"
  by (simp add: build_manifest_def gather_cards file_at_demo)

lemma build_dirA:
  "build_manifest w_demo ''dirA'' ''cards''
     = ([(''cards/x.json'', \<lparr>sha = git_blob_sha1 ''A'', size_e = 1\<rparr>)], [])"
  by (simp add: build_manifest_def gather_dirA file_at_demo)

lemma build_dirB:
  "build_manifest w_demo ''dirB'' ''cards''
     = ([(''cards/x.json'', \<lparr>sha = git_blob_sha1 ''BB'', size_e = 2\<rparr>)], [])"
  by (simp add: build_manifest_def gather_dirB file_at_demo)

lemma loop_cards:
  "source_loop w_demo [''cards''] ([], [])
     = ([(''cards/b.json'', \<lparr>sha = git_blob_sha1 ''{}'', size_e = 2\<rparr>),
         (''cards/sub/X.JSON'', \<lparr>sha = git_blob_sha1 ''[1]'', size_e = 3\<rparr>)],
        [read_warning ''cards/c.json'' ''[Errno 13] Permission denied''])"
  by (simp add: parse_demo isdir_demo build_cards dict_has_def)


lemma valid_keys_cards: "valid_utf8 ''cards/b.json''" "valid_utf8 ''cards/sub/X.JSON''"
  by code_simp+


lemma main_cards_exit0:
  "outcome (main NoFault now w_demo [''cards''] ''m.json'' [''.json'']) = Exit 0"
  by (simp add: main_NoFault_outcome loop_cards valid_keys_cards del: source_loop.simps)

section \<open>The include-extensions option\<close>

lemma main_ignores_include_ext:
  "main flt now w source output include_ext = main flt now w source output [''.json'']"
  by (simp add: main_def)

text \<open>
  C2. The claim: the build uses the configured include-extensions set to filter the files.
  The code computes the set \<open>exts\<close> in \<open>main\<close> and never passes it on: \<open>build_manifest\<close>
  calls \<open>gather_files\<close> with the built-in default. With the parsed extensions
  \<open>['.json', '.txt']\<close> (the option \<open>-e .txt\<close>) on the example file system, the manifest
  holds the two readable JSON files only, although \<open>gather_files\<close> with the configured
  set lists \<open>a.txt\<close> first.
\<close>

theorem include_ext_not_used:
  "stdout (main NoFault now w_demo [''cards''] ''m.json'' [''.json'', ''.txt''])
     = [''Wrote manifest to m.json (2 files)'']
   \<and> map fst (fst (source_loop w_demo [''cards''] ([], [])))
       = [''cards/b.json'', ''cards/sub/X.JSON'']
   \<and> map snd (gather_files w_demo ''cards'' (Some {''.json'', ''.txt''}))
       = [''a.txt'', ''b.json'', ''c.json'', ''sub/X.JSON'']"
proof (intro conjI)
  show "stdout (main NoFault now w_demo [''cards''] ''m.json'' [''.json'', ''.txt''])
          = [''Wrote manifest to m.json (2 files)'']"
    by (simp add: main_writes(3) loop_cards write_output_NoFault valid_keys_cards
        wrote_message_def str_nat.simps digit_char_def del: source_loop.simps)
  show "map fst (fst (source_loop w_demo [''cards''] ([], [])))
          = [''cards/b.json'', ''cards/sub/X.JSON'']"
    by (simp add: loop_cards del: source_loop.simps)
  show "map snd (gather_files w_demo ''cards'' (Some {''.json'', ''.txt''}))
          = [''a.txt'', ''b.json'', ''c.json'', ''sub/X.JSON'']"
    by code_simp
qed

section \<open>Matching file names against extensions\<close>

text \<open>
  C3. The claim: a file is included when its name, compared case-insensitively, ends
  with a configured extension, so that \<open>.JSON\<close> selects the files \<open>.json\<close> selects. The
  code lowers the file name and leaves the extension as configured: under \<open>.json\<close> the
  file \<open>X.JSON\<close> is included, under \<open>.JSON\<close> no file is.
\<close>

theorem uppercase_ext_matches_nothing:
  "map snd (gather_files w_demo ''cards'' (Some {''.json''}))
     = [''b.json'', ''c.json'', ''sub/X.JSON'']
   \<and> gather_files w_demo ''cards'' (Some {''.JSON''}) = []
   \<and> \<not> included {''.JSON''} ''X.JSON''
   \<and> included {''.json''} ''X.JSON''"
  by code_simp

section \<open>Key collisions between sources\<close>

text \<open>
  C4. When two sources that are directories, processed in the order \<open>[a, b]\<close>, both
  produce the key \<open>k\<close>, the final entry for \<open>k\<close> is the one of \<open>b\<close> and the duplicate-key
  warning for \<open>k\<close> is written; in the order \<open>[b, a]\<close> the entry of \<open>a\<close> wins.
\<close>

theorem collision_later_source_wins:
  assumes "parse_source a = (ka, pa)" and "parse_source b = (kb, pb)"
    and "isdir w pa" and "isdir w pb"
    and "k \<in> set (map fst (fst (build_manifest w pa ka)))"
    and "k \<in> set (map fst (fst (build_manifest w pb kb)))"
  shows "map_of (fst (source_loop w [a, b] ([], []))) k = map_of (fst (build_manifest w pb kb)) k
         \<and> duplicate_warning k \<in> set (snd (source_loop w [a, b] ([], [])))
         \<and> map_of (fst (source_loop w [b, a] ([], []))) k = map_of (fst (build_manifest w pa ka)) k
         \<and> duplicate_warning k \<in> set (snd (source_loop w [b, a] ([], [])))"
  using later_source_wins [OF assms(1,2,3,4,5,6)] later_source_wins [OF assms(2,1,4,3,6,5)]
  by simp

theorem collision_later_source_wins_witness:
  "map_of (fst (source_loop w_demo [''cards=dirA'', ''cards=dirB''] ([], []))) ''cards/x.json''
     = Some \<lparr>sha = git_blob_sha1 ''BB'', size_e = 2\<rparr>
   \<and> duplicate_warning ''cards/x.json''
       \<in> set (snd (source_loop w_demo [''cards=dirA'', ''cards=dirB''] ([], [])))
   \<and> map_of (fst (source_loop w_demo [''cards=dirB'', ''cards=dirA''] ([], []))) ''cards/x.json''
     = Some \<lparr>sha = git_blob_sha1 ''A'', size_e = 1\<rparr>
   \<and> duplicate_warning ''cards/x.json''
       \<in> set (snd (source_loop w_demo [''cards=dirB'', ''cards=dirA''] ([], [])))"
  using collision_later_source_wins [of "''cards=dirA''" "''cards''" "''dirA''"
      "''cards=dirB''" "''cards''" "''dirB''" w_demo "''cards/x.json''"]
  by (simp add: parse_demo isdir_demo build_dirA build_dirB del: source_loop.simps)

section \<open>The serialised document\<close>














section \<open>Skipped sources and unreadable files\<close>

lemma build_loop_err:
  "build_loop w key files (d, e)
     = (fst (build_loop w key files (d, [])), e @ snd (build_loop w key files (d, [])))"
proof (induction files arbitrary: d e)
  case Nil
  then show ?case by simp
next
  case (Cons f files)
  obtain full rel where f: "f = (full, rel)" by (cases f)
  show ?case
  proof (cases "file_at w full")
    case (Inl msg)
    show ?thesis
      unfolding f using Cons.IH [of d "e @ [read_warning full msg]"]
        Cons.IH [of d "[read_warning full msg]"]
      by (simp add: Inl)
  next
    case (Inr data)
    show ?thesis
      unfolding f using Cons.IH [of _ e] by (simp add: Inr)
  qed
qed

lemma build_loop_append:
  "build_loop w key (xs @ ys) st = build_loop w key ys (build_loop w key xs st)"
proof (induction xs arbitrary: st)
  case Nil
  then show ?case by simp
next
  case (Cons f xs)
  obtain full rel where f: "f = (full, rel)" by (cases f)
  obtain d e where st: "st = (d, e)" by (cases st)
  show ?case
    unfolding f st by (cases "file_at w full") (simp_all add: Cons.IH)
qed

lemma merge_items_err:
  "merge_items (c, e) m = (fst (merge_items (c, []) m), e @ snd (merge_items (c, []) m))"
proof (induction m arbitrary: c e)
  case Nil
  then show ?case by simp
next
  case (Cons a m)
  obtain k v where a: "a = (k, v)" by (cases a)
  show ?case
    unfolding a
    using Cons.IH [of "dict_set c k v" "e @ [duplicate_warning k]"]
      Cons.IH [of "dict_set c k v" "[duplicate_warning k]"] Cons.IH [of "dict_set c k v" e]
    by simp
qed

lemma source_loop_err:
  "source_loop w ss (c, e) = (fst (source_loop w ss (c, [])), e @ snd (source_loop w ss (c, [])))"
proof (induction ss arbitrary: c e)
  case Nil
  then show ?case by simp
next
  case (Cons s ss)
  obtain key path where p: "parse_source s = (key, path)" by (cases "parse_source s")
  show ?case
  proof (cases "isdir w path")
    case False
    show ?thesis
      using Cons.IH [of c "e @ [skip_warning path]"] Cons.IH [of c "[skip_warning path]"] False
      by (simp add: p)
  next
    case True
    obtain fm ws where b: "build_manifest w path key = (fm, ws)"
      by (cases "build_manifest w path key")
    obtain c1 e1 where m1: "merge_items (c, ws) fm = (c1, e1)"
      by (cases "merge_items (c, ws) fm")
    have m: "merge_items (c, e @ ws) fm = (c1, e @ e1)"
      using merge_items_err [of c "e @ ws" fm] merge_items_err [of c ws fm] m1 by simp
    show ?thesis
      using Cons.IH [of c1 "e @ e1"] Cons.IH [of c1 e1] True
      by (simp add: p b m m1)
  qed
qed

lemma source_loop_append:
  "source_loop w (xs @ ys) st = source_loop w ys (source_loop w xs st)"
proof (induction xs arbitrary: st)
  case Nil
  then show ?case by simp
next
  case (Cons s xs)
  obtain c e where st: "st = (c, e)" by (cases st)
  show ?case
    unfolding st by (simp add: Cons.IH split: prod.splits)
qed

lemma source_loop_skip:
  assumes "\<not> isdir w (snd (parse_source s))"
  shows "source_loop w (s # ss) (c, e) = source_loop w ss (c, e @ [skip_warning (snd (parse_source s))])"
  using assms by (cases "parse_source s") simp

lemma source_loop_keeps_err: "set e \<subseteq> set (snd (source_loop w ss (c, e)))"
  by (subst source_loop_err) simp

lemma build_loop_keeps_err: "set e \<subseteq> set (snd (build_loop w key files (d, e)))"
  by (subst build_loop_err) simp

lemma skipped_source:
  assumes inv: "\<not> isdir w (snd (parse_source s))"
  shows "fst (source_loop w (ss1 @ s # ss2) st) = fst (source_loop w (ss1 @ ss2) st)"
    and "skip_warning (snd (parse_source s)) \<in> set (snd (source_loop w (ss1 @ s # ss2) st))"
proof -
  obtain c e where st1: "source_loop w ss1 st = (c, e)" by (cases "source_loop w ss1 st")
  let ?e = "e @ [skip_warning (snd (parse_source s))]"
  have step: "source_loop w (ss1 @ s # ss2) st = source_loop w ss2 (c, ?e)"
    by (simp add: source_loop_append st1 source_loop_skip [OF inv] del: source_loop.simps)
  have "fst (source_loop w ss2 (c, ?e)) = fst (source_loop w ss2 (c, e))"
    by (subst source_loop_err, subst (2) source_loop_err) simp
  then show "fst (source_loop w (ss1 @ s # ss2) st) = fst (source_loop w (ss1 @ ss2) st)"
    unfolding step by (simp add: source_loop_append st1)
  show "skip_warning (snd (parse_source s)) \<in> set (snd (source_loop w (ss1 @ s # ss2) st))"
    unfolding step using source_loop_keeps_err [of ?e w ss2 c] by auto
qed

lemma skipped_file:
  assumes bad: "file_at w full = Inl msg"
  shows "fst (build_loop w key (fs1 @ (full, rel) # fs2) st) = fst (build_loop w key (fs1 @ fs2) st)"
    and "read_warning full msg \<in> set (snd (build_loop w key (fs1 @ (full, rel) # fs2) st))"
proof -
  obtain d e where st1: "build_loop w key fs1 st = (d, e)" by (cases "build_loop w key fs1 st")
  let ?e = "e @ [read_warning full msg]"
  have step: "build_loop w key (fs1 @ (full, rel) # fs2) st = build_loop w key fs2 (d, ?e)"
    by (simp add: build_loop_append st1 bad)
  have "fst (build_loop w key fs2 (d, ?e)) = fst (build_loop w key fs2 (d, e))"
    by (subst build_loop_err, subst (2) build_loop_err) simp
  then show "fst (build_loop w key (fs1 @ (full, rel) # fs2) st) = fst (build_loop w key (fs1 @ fs2) st)"
    unfolding step by (simp add: build_loop_append st1)
  show "read_warning full msg \<in> set (snd (build_loop w key (fs1 @ (full, rel) # fs2) st))"
    unfolding step using build_loop_keeps_err [of ?e w key fs2 d] by auto
qed

lemma main_depends_on_combined:
  assumes "source \<noteq> []" and "source' \<noteq> []"
    and "fst (source_loop w source ([], [])) = fst (source_loop w source' ([], []))"
  shows "outcome (main flt now w source output include_ext)
           = outcome (main flt now w source' output include_ext)
         \<and> world_after (main flt now w source output include_ext)
           = world_after (main flt now w source' output include_ext)
         \<and> stdout (main flt now w source output include_ext)
           = stdout (main flt now w source' output include_ext)"
proof -
  obtain c e where l: "source_loop w source ([], []) = (c, e)"
    by (cases "source_loop w source ([], [])")
  obtain e' where l': "source_loop w source' ([], []) = (c, e')"
    using assms(3) l by (cases "source_loop w source' ([], [])") simp
  show ?thesis
    using assms(1,2) by (simp add: main_def l l' split: prod.splits sum.splits)
qed

text \<open>
  C7. A source whose path is not a directory is skipped with a warning: the accumulated
  entries are those of the run without it, and with other sources left the run ends as it
  would without it. A file that cannot be read is skipped with a warning naming it: the
  entries built are those of the loop without that file.
\<close>

theorem problems_become_warnings:
  "(\<not> isdir w (snd (parse_source s)) \<longrightarrow>
      fst (source_loop w (ss1 @ s # ss2) st) = fst (source_loop w (ss1 @ ss2) st)
      \<and> skip_warning (snd (parse_source s)) \<in> set (snd (source_loop w (ss1 @ s # ss2) st))
      \<and> (ss1 @ ss2 \<noteq> [] \<longrightarrow>
           outcome (main flt now w (ss1 @ s # ss2) output include_ext)
             = outcome (main flt now w (ss1 @ ss2) output include_ext)
           \<and> world_after (main flt now w (ss1 @ s # ss2) output include_ext)
             = world_after (main flt now w (ss1 @ ss2) output include_ext)))
   \<and> (file_at w full = Inl msg \<longrightarrow>
      fst (build_loop w key (fs1 @ (full, rel) # fs2) bst) = fst (build_loop w key (fs1 @ fs2) bst)
      \<and> read_warning full msg \<in> set (snd (build_loop w key (fs1 @ (full, rel) # fs2) bst)))"
proof (intro conjI impI)
  assume inv: "\<not> isdir w (snd (parse_source s))"
  show "fst (source_loop w (ss1 @ s # ss2) st) = fst (source_loop w (ss1 @ ss2) st)"
    by (rule skipped_source(1) [OF inv])
  show "skip_warning (snd (parse_source s)) \<in> set (snd (source_loop w (ss1 @ s # ss2) st))"
    by (rule skipped_source(2) [OF inv])
  assume ne: "ss1 @ ss2 \<noteq> []"
  have ne': "ss1 @ s # ss2 \<noteq> []" by simp
  note m = main_depends_on_combined [OF ne' ne skipped_source(1) [OF inv, of ss1 ss2 "([], [])"]]
  show "outcome (main flt now w (ss1 @ s # ss2) output include_ext)
          = outcome (main flt now w (ss1 @ ss2) output include_ext)"
    using m by simp
  show "world_after (main flt now w (ss1 @ s # ss2) output include_ext)
          = world_after (main flt now w (ss1 @ ss2) output include_ext)"
    using m by simp
next
  assume bad: "file_at w full = Inl msg"
  show "fst (build_loop w key (fs1 @ (full, rel) # fs2) bst) = fst (build_loop w key (fs1 @ fs2) bst)"
    by (rule skipped_file(1) [OF bad])
  show "read_warning full msg \<in> set (snd (build_loop w key (fs1 @ (full, rel) # fs2) bst))"
    by (rule skipped_file(2) [OF bad])
qed


theorem problems_become_warnings_witness:
  "fst (source_loop w_demo [''missing'', ''cards''] ([], []))
     = fst (source_loop w_demo [''cards''] ([], []))
   \<and> skip_warning ''missing'' \<in> set (snd (source_loop w_demo [''missing'', ''cards''] ([], [])))
   \<and> outcome (main NoFault ''T'' w_demo [''missing'', ''cards''] ''m.json'' [''.json'']) = Exit 0
   \<and> fst (build_loop w_demo ''cards''
             [(''cards/b.json'', ''b.json''), (''cards/c.json'', ''c.json''),
              (''cards/sub/X.JSON'', ''sub/X.JSON'')] ([], []))
       = fst (build_loop w_demo ''cards''
                [(''cards/b.json'', ''b.json''), (''cards/sub/X.JSON'', ''sub/X.JSON'')] ([], []))
   \<and> read_warning ''cards/c.json'' ''[Errno 13] Permission denied''
       \<in> set (snd (build_loop w_demo ''cards''
                      [(''cards/b.json'', ''b.json''), (''cards/c.json'', ''c.json''),
                       (''cards/sub/X.JSON'', ''sub/X.JSON'')] ([], [])))"
  using problems_become_warnings [of w_demo "''missing''" "[]" "[''cards'']" "([], [])"
      NoFault "''T''" "''m.json''" "[''.json'']" "''cards/c.json''"
      "''[Errno 13] Permission denied''" "''cards''" "[(''cards/b.json'', ''b.json'')]"
      "''c.json''" "[(''cards/sub/X.JSON'', ''sub/X.JSON'')]" "([], [])"]
    main_cards_exit0 [of "''T''"]
  by (simp add: parse_demo isdir_demo file_at_demo
      del: source_loop.simps build_loop.simps)

section \<open>A run that finds no files\<close>

lemma source_loop_nothing_found:
  "list_all (\<lambda>s. \<not> isdir w (snd (parse_source s))
                  \<or> gather_files w (snd (parse_source s)) None = []) ss
   \<Longrightarrow> fst (source_loop w ss (c, e)) = c"
proof (induction ss arbitrary: e)
  case Nil
  then show ?case by simp
next
  case (Cons s ss)
  obtain key path where p: "parse_source s = (key, path)" by (cases "parse_source s")
  from Cons.prems have rest: "list_all (\<lambda>s. \<not> isdir w (snd (parse_source s))
      \<or> gather_files w (snd (parse_source s)) None = []) ss"
    and this_one: "\<not> isdir w path \<or> gather_files w path None = []"
    by (simp_all add: p)
  show ?case
  proof (cases "isdir w path")
    case False
    then show ?thesis using Cons.IH [OF rest] by (simp add: p)
  next
    case True
    with this_one have "build_manifest w path key = ([], [])"
      by (simp add: build_manifest_def)
    then show ?thesis using Cons.IH [OF rest] True by (simp add: p)
  qed
qed

text \<open>
  C6, as the code has it. When the accumulated map is empty after the sources were
  processed (every source is skipped or has no matching file, see
  \<open>source_loop_nothing_found\<close>), the run exits with 2, prints nothing to standard
  output and leaves the file system as it was. Its last error line is the no-files-found
  error when sources were given, and the at-least-one-source error when none was.
\<close>

theorem empty_result_exit_2:
  assumes "fst (source_loop w source ([], [])) = []"
  shows "outcome (main flt now w source output include_ext) = Exit 2
         \<and> world_after (main flt now w source output include_ext) = w
         \<and> stdout (main flt now w source output include_ext) = []
         \<and> last (stderr (main flt now w source output include_ext))
             = (if source = [] then no_source_error else no_files_error)"
proof (cases "source = []")
  case True
  then show ?thesis by (simp add: main_no_source)
next
  case False
  obtain err where "source_loop w source ([], []) = ([], err)"
    using assms by (cases "source_loop w source ([], [])") simp
  from main_empty_result [OF False this] show ?thesis
    using False by simp
qed

lemma loop_missing:
  "source_loop w_demo [''missing''] ([], []) = ([], [skip_warning ''missing''])"
  by (simp add: parse_demo isdir_demo)

theorem empty_result_exit_2_witness:
  "outcome (main NoFault ''T'' w_demo [''missing''] ''m.json'' [''.json'']) = Exit 2
   \<and> world_after (main NoFault ''T'' w_demo [''missing''] ''m.json'' [''.json'']) = w_demo
   \<and> stdout (main NoFault ''T'' w_demo [''missing''] ''m.json'' [''.json'']) = []
   \<and> last (stderr (main NoFault ''T'' w_demo [''missing''] ''m.json'' [''.json'']))
       = no_files_error"
  using empty_result_exit_2 [of w_demo "[''missing'']" NoFault "''T''" "''m.json''" "[''.json'']"]
  by (simp add: loop_missing del: source_loop.simps)

text \<open>
  C6 as stated names the no-files-found error for a run without sources too. That run
  exits with 2 on the earlier guard, and the no-files-found line is not written.
\<close>

theorem no_sources_message_counterexample:
  "fst (source_loop w_demo [] ([], [])) = []
   \<and> outcome (main NoFault ''T'' w_demo [] ''m.json'' [''.json'']) = Exit 2
   \<and> no_files_error \<notin> set (stderr (main NoFault ''T'' w_demo [] ''m.json'' [''.json'']))"
  by (simp add: main_no_source no_source_error_def no_files_error_def)

section \<open>Writing the manifest\<close>
















section \<open>A destination without a directory part\<close>




section \<open>Two runs over the same sources\<close>

























end
